theory Spec2Isabelle
  imports Complex_Main "HOL-Library.Word"
begin

unbundle bit_operations_syntax

section \<open>The capture script \<^verbatim>\<open>camera.py\<close> as a state machine\<close>

text \<open>
  The script is one control loop around a camera, a window, the clock and the file
  system. Everything the script asks of its surroundings is an oracle of the record
  \<open>env\<close>, indexed by the number of earlier calls of the same operation; everything it
  does to them is an \<open>event\<close> appended to the trace of the session. The Python variables
  of \<^verbatim>\<open>main\<close> are fields of the record \<open>session\<close>. One \<open>step\<close> is one pass through the
  body of a loop: the outer \<^verbatim>\<open>while img_index <= args.count\<close> or the countdown
  \<^verbatim>\<open>while True\<close> nested in it. The loops need not end (a camera that never delivers a
  frame, a user who never presses a key), so a run is observed after \<open>n\<close> steps.
\<close>

subsection \<open>Decimal formatting\<close>

text \<open>\<^verbatim>\<open>str(n)\<close> for a natural number: its decimal digits, most significant first.\<close>

definition digit_char :: "nat \<Rightarrow> char" where
  "digit_char d = ''0123456789'' ! d"

fun digits :: "nat \<Rightarrow> string" where
  "digits n = (if n < 10 then [digit_char n] else digits (n div 10) @ [digit_char (n mod 10)])"

declare digits.simps [simp del]

text \<open>\<^verbatim>\<open>str(i)\<close> for a Python int, as the f-strings of the script format it.\<close>

definition str_int :: "int \<Rightarrow> string" where
  "str_int i = (if i < 0 then CHR ''-'' # digits (nat (- i)) else digits (nat i))"

definition zfill :: "nat \<Rightarrow> string \<Rightarrow> string" where
  "zfill w s = replicate (w - length s) CHR ''0'' @ s"

text \<open>
  The format specification \<^verbatim>\<open>{idx:03d}\<close>: sign-aware zero padding to a width of at least
  three characters; a longer number is printed in full.
\<close>

definition format_03d :: "int \<Rightarrow> string" where
  "format_03d i = (if i < 0 then CHR ''-'' # zfill 2 (digits (nat (- i))) else zfill 3 (digits (nat i)))"

subsection \<open>Data\<close>

text \<open>The namespace returned by \<^verbatim>\<open>parse_args\<close>; \<open>output_dir\<close> is \<^verbatim>\<open>args.output\<close>, the string of the path.\<close>

record config =
  output_dir :: string
  count :: int
  delay :: int
  camera :: int
  width :: int
  height :: int
  prefix :: string
  manual :: bool
  skip_warmup :: bool

text \<open>
  An image: the picture delivered by the camera (an opaque number) and the texts that
  \<^verbatim>\<open>cv2.putText\<close> has drawn onto it, in order. Position, font and colour are left out.
\<close>

datatype frame = Frame (pixels: nat) (overlay: "string list")

fun putText :: "frame \<Rightarrow> string \<Rightarrow> frame" where
  "putText (Frame p ts) t = Frame p (ts @ [t])"

record datetime =
  year :: nat
  month :: nat
  day :: nat
  hour :: nat
  minute :: nat
  second :: nat

text \<open>\<^verbatim>\<open>strftime("%Y%m%d_%H%M%S")\<close>\<close>

definition strftime :: "datetime \<Rightarrow> string" where
  "strftime d = zfill 4 (digits (year d)) @ zfill 2 (digits (month d)) @ zfill 2 (digits (day d))
     @ ''_'' @ zfill 2 (digits (hour d)) @ zfill 2 (digits (minute d)) @ zfill 2 (digits (second d))"

text \<open>
  What the output path is before the run, as far as \<^verbatim>\<open>Path.mkdir\<close> can tell: a directory,
  a path that can be created, another kind of file, or a path that cannot be created. In
  the last two cases the operating system's error comes along: the string is \<^verbatim>\<open>str(e)\<close> of
  the exception that \<^verbatim>\<open>mkdir\<close> raises, such as \<^verbatim>\<open>[Errno 17] File exists: 'captured_images'\<close>.
\<close>

datatype path_state = Directory | Creatable | NonDirectory string | Uncreatable string

text \<open>
  \<^verbatim>\<open>path.mkdir(parents=True, exist_ok=True)\<close>: \<^verbatim>\<open>str(e)\<close> of the exception it raises, if
  any. A directory that is already there is accepted (\<^verbatim>\<open>exist_ok\<close>); another kind of
  file under that name, or a path that cannot be created, raises.
\<close>

fun mkdir :: "path_state \<Rightarrow> string option" where
  "mkdir Directory = None"
| "mkdir Creatable = None"
| "mkdir (NonDirectory e) = Some e"
| "mkdir (Uncreatable e) = Some e"

text \<open>
  The surroundings of a run. \<open>camera_frames env k\<close> is what the call number \<open>k\<close> of
  \<^verbatim>\<open>cap.read()\<close> returns: \<open>Some f\<close> stands for \<^verbatim>\<open>(True, f)\<close> and \<open>None\<close> for
  \<^verbatim>\<open>(False, None)\<close>, the pair OpenCV returns when no frame could be grabbed.
  \<open>key_codes env k\<close> is the result of the call number \<open>k\<close> of \<^verbatim>\<open>cv2.waitKey\<close> (\<open>-1\<close> when
  no key was pressed), \<open>wall_clock env k\<close> that of \<^verbatim>\<open>time.time()\<close> in seconds,
  \<open>local_time env k\<close> that of \<^verbatim>\<open>datetime.now()\<close>, and \<open>write_ok env k\<close> the result of the
  call number \<open>k\<close> of \<^verbatim>\<open>cv2.imwrite\<close>, which is false when the file could not be written.
\<close>

record env =
  output_path :: path_state
  camera_opens :: bool
  camera_frames :: "nat \<Rightarrow> frame option"
  key_codes :: "nat \<Rightarrow> int"
  wall_clock :: "nat \<Rightarrow> real"
  local_time :: "nat \<Rightarrow> datetime"
  write_ok :: "nat \<Rightarrow> bool"

text \<open>The lines the script prints.\<close>

datatype message =
    ErrorDirectory string string
  | ErrorCamera int
  | Starting string int int int
  | WarningRetry
  | QuitRequest
  | Captured string
  | WarningCountdown
  | WarningFinal
  | Interrupted
  | CleanupDone

fun text_of :: "message \<Rightarrow> string" where
  "text_of (ErrorDirectory p e) = ''ERROR: Unable to create output directory '' @ p @ '': '' @ e"
| "text_of (ErrorCamera c) = ''ERROR: Cannot open camera index '' @ str_int c"
| "text_of (Starting p n d c) = ''Starting capture: output='' @ p @ '', count='' @ str_int n
     @ '', delay='' @ str_int d @ ''s, camera='' @ str_int c"
| "text_of WarningRetry = ''WARNING: Failed to read frame, retrying...''"
| "text_of QuitRequest = ''Quitting by user request.''"
| "text_of (Captured f) = ''Captured '' @ f"
| "text_of WarningCountdown = ''WARNING: Frame dropped during countdown.''"
| "text_of WarningFinal = ''WARNING: Failed to grab final frame, skipping this capture.''"
| "text_of Interrupted = ''Capture interrupted.''"
| "text_of CleanupDone = ''Cleanup done.''"

datatype exn = KeyboardInterrupt | AttributeError

text \<open>
  What the script does to its surroundings. \<open>ReadFrame\<close> is a \<^verbatim>\<open>cap.read()\<close> whose result
  is assigned to \<^verbatim>\<open>ret, frame\<close>, \<open>DiscardFrame\<close> one whose result is dropped; \<open>Sleep\<close> is
  in milliseconds; \<open>Imwrite f img ok\<close> is a call of \<^verbatim>\<open>cv2.imwrite\<close> with its result;
  \<open>Traceback\<close> is the report of the interpreter on an exception that nothing caught.
\<close>

datatype event =
    Print message
  | Sleep nat
  | OpenCamera int
  | SetWidth int
  | SetHeight int
  | ReadFrame "frame option"
  | DiscardFrame "frame option"
  | Imshow frame
  | WaitKey nat int
  | Imwrite string frame bool
  | Release
  | DestroyAllWindows
  | Traceback exn

text \<open>
  Where the run is: at the test of the outer loop, at the head of the countdown loop, or
  over, with the exit code of the process.
\<close>

datatype control = OuterLoop | Countdown | Exited int

record session =
  img_index :: int
  frame :: "frame option"
  start_time :: real
  control :: control
  trace :: "event list"
  reads :: nat
  polls :: nat
  ticks :: nat
  stamps :: nat
  writes :: nat

subsection \<open>Operations on the surroundings\<close>

definition emit :: "event \<Rightarrow> session \<Rightarrow> session" where
  "emit e s = s\<lparr>trace := trace s @ [e]\<rparr>"

text \<open>\<^verbatim>\<open>ret, frame = cap.read()\<close>: the variable \<open>frame\<close> is assigned whatever the read returns.\<close>

definition cap_read :: "env \<Rightarrow> session \<Rightarrow> session" where
  "cap_read env s =
     emit (ReadFrame (camera_frames env (reads s)))
       (s\<lparr>frame := camera_frames env (reads s), reads := Suc (reads s)\<rparr>)"

text \<open>\<^verbatim>\<open>for _ in range(n): cap.read()\<close>\<close>

fun cap_read_discard :: "nat \<Rightarrow> env \<Rightarrow> session \<Rightarrow> session" where
  "cap_read_discard 0 env s = s"
| "cap_read_discard (Suc n) env s =
     cap_read_discard n env
       (emit (DiscardFrame (camera_frames env (reads s))) (s\<lparr>reads := Suc (reads s)\<rparr>))"

definition waitKey :: "env \<Rightarrow> nat \<Rightarrow> session \<Rightarrow> int \<times> session" where
  "waitKey env ms s =
     (key_codes env (polls s), emit (WaitKey ms (key_codes env (polls s))) (s\<lparr>polls := Suc (polls s)\<rparr>))"

definition time_time :: "env \<Rightarrow> session \<Rightarrow> real \<times> session" where
  "time_time env s = (wall_clock env (ticks s), s\<lparr>ticks := Suc (ticks s)\<rparr>)"

text \<open>\<^verbatim>\<open>int(x)\<close> of a float truncates towards zero.\<close>

definition py_int :: "real \<Rightarrow> int" where
  "py_int x = (if 0 \<le> x then \<lfloor>x\<rfloor> else \<lceil>x\<rceil>)"

text \<open>
  Modelled from the spec: the join of \<^verbatim>\<open>pathlib\<close>, \<^verbatim>\<open>str(folder / name)\<close>, which is not
  part of the repository. The spec gives the result as \<^verbatim>\<open><output_dir>/<name>\<close>.
\<close>

definition path_join :: "string \<Rightarrow> string \<Rightarrow> string" where
  "path_join folder name = folder @ ''/'' @ name"

text \<open>\<^verbatim>\<open>build_filename\<close>, with the reading of \<^verbatim>\<open>datetime.now()\<close> as an argument.\<close>

definition build_filename :: "string \<Rightarrow> string \<Rightarrow> int \<Rightarrow> datetime \<Rightarrow> string" where
  "build_filename folder pre idx now =
     path_join folder (pre @ ''_'' @ format_03d idx @ ''_'' @ strftime now @ ''.jpg'')"

text \<open>
  The four lines that both modes share: build the name, write the image, print the
  name, advance the index. The result of \<^verbatim>\<open>cv2.imwrite\<close> is not looked at.
\<close>

definition capture :: "env \<Rightarrow> config \<Rightarrow> frame \<Rightarrow> session \<Rightarrow> session" where
  "capture env cfg img s =
     (let filename = build_filename (output_dir cfg) (prefix cfg) (img_index s) (local_time env (stamps s));
          s1 = s\<lparr>stamps := Suc (stamps s)\<rparr>;
          s2 = emit (Imwrite filename img (write_ok env (writes s1))) (s1\<lparr>writes := Suc (writes s1)\<rparr>);
          s3 = emit (Print (Captured filename)) s2
      in s3\<lparr>img_index := img_index s3 + 1\<rparr>)"

text \<open>
  Leaving the \<^verbatim>\<open>try\<close> block: \<^verbatim>\<open>KeyboardInterrupt\<close> is caught and reported, the
  \<^verbatim>\<open>finally\<close> clause runs, and an exception that no clause catches ends the process
  with exit code 1 after it.
\<close>

definition finish :: "exn option \<Rightarrow> session \<Rightarrow> session" where
  "finish raised s =
     (let s1 = (if raised = Some KeyboardInterrupt then emit (Print Interrupted) s else s);
          s2 = emit (Print CleanupDone) (emit DestroyAllWindows (emit Release s1))
      in if raised = Some AttributeError
         then (emit (Traceback AttributeError) s2)\<lparr>control := Exited 1\<rparr>
         else s2\<lparr>control := Exited 0\<rparr>)"

subsection \<open>The loop bodies\<close>

text \<open>Manual mode, lines 62 to 77, on a frame that was read.\<close>

definition manual_iteration :: "env \<Rightarrow> config \<Rightarrow> frame \<Rightarrow> session \<Rightarrow> session" where
  "manual_iteration env cfg img s =
     (let shown = putText img (''Manual capture '' @ str_int (img_index s) @ ''/'' @ str_int (count cfg)
                    @ '' - SPACE to capture, ESC to quit'');
          s1 = emit (Imshow shown) (s\<lparr>frame := Some shown\<rparr>);
          (k, s2) = waitKey env 1 s1;
          key = k AND 0xFF
      in if key = 27 then finish None (emit (Print QuitRequest) s2)
         else if key = 32 then cap_read_discard 5 env (capture env cfg shown s2)
         else s2)"

text \<open>One pass through the outer loop, from its test to the start of the countdown.\<close>

definition outer_iteration :: "env \<Rightarrow> config \<Rightarrow> session \<Rightarrow> session" where
  "outer_iteration env cfg s =
     (if img_index s \<le> count cfg then
        (let s1 = cap_read env s
         in case frame s1 of
              None \<Rightarrow> emit (Sleep 200) (emit (Print WarningRetry) s1)
            | Some img \<Rightarrow>
                if manual cfg then manual_iteration env cfg img s1
                else (let (t, s2) = time_time env s1
                      in s2\<lparr>start_time := t, control := Countdown\<rparr>))
      else finish None s)"

text \<open>After the countdown, lines 107 to 119: the final read, the capture, the discards.\<close>

definition final_capture :: "env \<Rightarrow> config \<Rightarrow> session \<Rightarrow> session" where
  "final_capture env cfg s =
     (let s1 = cap_read env s;
          s2 = (case frame s1 of
                  None \<Rightarrow> emit (Print WarningFinal) s1
                | Some img \<Rightarrow> capture env cfg img s1)
      in (cap_read_discard 5 env s2)\<lparr>control := OuterLoop\<rparr>)"

text \<open>One pass through the countdown loop, lines 82 to 105.\<close>

definition countdown_iteration :: "env \<Rightarrow> config \<Rightarrow> session \<Rightarrow> session" where
  "countdown_iteration env cfg s =
     (let (t, s1) = time_time env s;
          elapsed = py_int (t - start_time s);
          remaining = delay cfg - elapsed
      in case frame s1 of
           None \<Rightarrow> finish (Some AttributeError) s1
         | Some img \<Rightarrow>
             (let text = (if remaining > 0 then ''Capturing in '' @ str_int remaining @ '' sec''
                          else ''Capturing...'');
                  display = putText (putText img text) (str_int (img_index s) @ ''/'' @ str_int (count cfg));
                  s2 = emit (Imshow display) s1
              in if remaining \<le> 0 then final_capture env cfg s2
                 else (let (k, s3) = waitKey env 100 s2
                       in if k AND 0xFF = 113
                          then finish (Some KeyboardInterrupt) (emit (Print QuitRequest) s3)
                          else (let s4 = cap_read env s3
                                in case frame s4 of
                                     None \<Rightarrow> emit (Sleep 50) (emit (Print WarningCountdown) s4)
                                   | Some _ \<Rightarrow> s4))))"

definition step :: "env \<Rightarrow> config \<Rightarrow> session \<Rightarrow> session" where
  "step env cfg s =
     (case control s of
        OuterLoop \<Rightarrow> outer_iteration env cfg s
      | Countdown \<Rightarrow> countdown_iteration env cfg s
      | Exited c \<Rightarrow> s)"

fun steps :: "nat \<Rightarrow> env \<Rightarrow> config \<Rightarrow> session \<Rightarrow> session" where
  "steps 0 env cfg s = s"
| "steps (Suc n) env cfg s = step env cfg (steps n env cfg s)"

subsection \<open>The start of \<^verbatim>\<open>main\<close>\<close>

definition blank :: session where
  "blank = \<lparr>img_index = 1, frame = None, start_time = 0, control = OuterLoop, trace = [],
            reads = 0, polls = 0, ticks = 0, stamps = 0, writes = 0\<rparr>"

text \<open>\<^verbatim>\<open>ensure_dir\<close>: when \<^verbatim>\<open>mkdir\<close> raises, the diagnostic and \<^verbatim>\<open>sys.exit(1)\<close>.\<close>

definition ensure_dir :: "env \<Rightarrow> string \<Rightarrow> session \<Rightarrow> session" where
  "ensure_dir env path s =
     (case mkdir (output_path env) of
        None \<Rightarrow> s
      | Some e \<Rightarrow> (emit (Print (ErrorDirectory path e)) s)\<lparr>control := Exited 1\<rparr>)"

text \<open>Lines 35 to 52: everything before the \<^verbatim>\<open>try\<close>.\<close>

definition main_init :: "env \<Rightarrow> config \<Rightarrow> session" where
  "main_init env cfg =
     (let s0 = ensure_dir env (output_dir cfg) blank
      in if control s0 \<noteq> OuterLoop then s0
         else (let s1 = emit (OpenCamera (camera cfg)) s0
               in if \<not> camera_opens env
                  then (emit (Print (ErrorCamera (camera cfg))) s1)\<lparr>control := Exited 1\<rparr>
                  else (let s2 = emit (SetHeight (height cfg)) (emit (SetWidth (width cfg)) s1);
                            s3 = (if \<not> skip_warmup cfg then cap_read_discard 5 env s2 else s2)
                        in emit (Print (Starting (output_dir cfg) (count cfg) (delay cfg) (camera cfg))) s3)))"

text \<open>The session after \<open>n\<close> passes through loop bodies.\<close>

definition main :: "env \<Rightarrow> config \<Rightarrow> nat \<Rightarrow> session" where
  "main env cfg n = steps n env cfg (main_init env cfg)"

text \<open>The exit code of the process, once the run is over.\<close>

definition exit_code :: "session \<Rightarrow> int option" where
  "exit_code s = (case control s of Exited c \<Rightarrow> Some c | _ \<Rightarrow> None)"

subsection \<open>Reading a trace\<close>

text \<open>The calls of \<^verbatim>\<open>cv2.imwrite\<close>, each with its file name and its result, in order.\<close>

definition write_call :: "event \<Rightarrow> (string \<times> bool) list" where
  "write_call e = (case e of Imwrite f img ok \<Rightarrow> [(f, ok)] | _ \<Rightarrow> [])"

definition write_calls :: "event list \<Rightarrow> (string \<times> bool) list" where
  "write_calls tr = concat (map write_call tr)"

text \<open>The files that exist afterwards: the names of the calls that succeeded.\<close>

definition files_written :: "event list \<Rightarrow> string list" where
  "files_written tr = map fst (filter snd (write_calls tr))"

text \<open>The key codes that the script compared, after the mask \<^verbatim>\<open>& 0xFF\<close>.\<close>

definition key_poll :: "event \<Rightarrow> int list" where
  "key_poll e = (case e of WaitKey ms k \<Rightarrow> [k AND 0xFF] | _ \<Rightarrow> [])"

definition keys_polled :: "event list \<Rightarrow> int list" where
  "keys_polled tr = concat (map key_poll tr)"

text \<open>The presses of ESC and SPACE among the keys the script compared, in order.\<close>

definition commands_seen :: "event list \<Rightarrow> int list" where
  "commands_seen tr = filter (\<lambda>k. k = 27 \<or> k = 32) (keys_polled tr)"

text \<open>The three effects of the \<^verbatim>\<open>finally\<close> clause.\<close>

definition is_finalization :: "event \<Rightarrow> bool" where
  "is_finalization e \<longleftrightarrow> e = Release \<or> e = DestroyAllWindows \<or> e = Print CleanupDone"

definition finalization :: "event list \<Rightarrow> event list" where
  "finalization tr = filter is_finalization tr"

text \<open>The events of the main loop and after it: the trace without the events of the start.\<close>

definition loop_trace :: "env \<Rightarrow> config \<Rightarrow> nat \<Rightarrow> event list" where
  "loop_trace env cfg n = drop (length (trace (main_init env cfg))) (trace (main env cfg n))"

text \<open>The number of discarded reads at the front of a trace.\<close>

definition is_discard :: "event \<Rightarrow> bool" where
  "is_discard e = (case e of DiscardFrame r \<Rightarrow> True | _ \<Rightarrow> False)"

definition leading_discards :: "event list \<Rightarrow> nat" where
  "leading_discards es = length (takeWhile is_discard es)"

text \<open>The log line of a capture, and the warning about a final read that failed.\<close>

definition is_captured :: "event \<Rightarrow> bool" where
  "is_captured e = (case e of Print m \<Rightarrow> (case m of Captured f \<Rightarrow> True | _ \<Rightarrow> False) | _ \<Rightarrow> False)"

definition is_captured_or_skipped :: "event \<Rightarrow> bool" where
  "is_captured_or_skipped e \<longleftrightarrow> is_captured e \<or> e = Print WarningFinal"

text \<open>
  A trace in which the discarded reads come in blocks of exactly five, one block right
  after every event that \<open>anchor\<close> accepts, and nowhere else.
\<close>

fun discard_blocks :: "(event \<Rightarrow> bool) \<Rightarrow> event list \<Rightarrow> bool" where
  "discard_blocks anchor [] = True"
| "discard_blocks anchor (e # es) =
     (if anchor e then leading_discards es = 5 \<and> discard_blocks anchor (drop 5 es)
      else \<not> is_discard e \<and> discard_blocks anchor es)"

text \<open>The name of the call number \<open>k\<close> of \<^verbatim>\<open>cv2.imwrite\<close>, counted from 0.\<close>

definition nth_filename :: "env \<Rightarrow> config \<Rightarrow> nat \<Rightarrow> string" where
  "nth_filename env cfg k = build_filename (output_dir cfg) (prefix cfg) (1 + int k) (local_time env k)"

text \<open>The time left on the countdown at the next reading of the clock.\<close>

definition remaining :: "env \<Rightarrow> config \<Rightarrow> session \<Rightarrow> int" where
  "remaining env cfg s = delay cfg - py_int (wall_clock env (ticks s) - start_time s)"

text \<open>Reading a number back from its digits.\<close>

definition digit_value :: "char \<Rightarrow> nat" where
  "digit_value c = of_char c - 48"

definition number_of :: "string \<Rightarrow> nat" where
  "number_of s = foldl (\<lambda>a c. 10 * a + digit_value c) 0 s"

definition int_of :: "string \<Rightarrow> int" where
  "int_of s = (case s of [] \<Rightarrow> 0 | c # r \<Rightarrow> if c = CHR ''-'' then - int (number_of r) else int (number_of s))"

subsection \<open>Surroundings and configurations to run the script on\<close>

definition noon :: datetime where
  "noon = \<lparr>year = 2024, month = 5, day = 17, hour = 12, minute = 0, second = 0\<rparr>"

text \<open>
  A camera that always delivers, a disk that always takes the file, nobody at the
  keyboard, a clock that every reading finds one second later.
\<close>

definition studio :: env where
  "studio = \<lparr>output_path = Creatable, camera_opens = True,
              camera_frames = (\<lambda>k. Some (Frame k [])), key_codes = (\<lambda>k. - 1),
              wall_clock = (\<lambda>k. real k), local_time = (\<lambda>k. noon\<lparr>second := k\<rparr>),
              write_ok = (\<lambda>k. True)\<rparr>"

text \<open>The defaults of \<^verbatim>\<open>parse_args\<close>.\<close>

definition defaults :: config where
  "defaults = \<lparr>output_dir = ''captured_images'', count = 5, delay = 3, camera = 0,
                width = 640, height = 480, prefix = ''image'', manual = False, skip_warmup = False\<rparr>"

text \<open>A keyboard on which SPACE is pressed first and ESC after it.\<close>

definition space_then_escape :: env where
  "space_then_escape = studio\<lparr>key_codes := (\<lambda>k. if k = 0 then 32 else 27)\<rparr>"

text \<open>The same keyboard, and a disk that takes no file.\<close>

definition full_disk :: env where
  "full_disk = studio\<lparr>key_codes := (\<lambda>k. if k = 0 then 32 else 27), write_ok := (\<lambda>k. False)\<rparr>"

text \<open>Two images by hand.\<close>

definition two_by_hand :: config where
  "two_by_hand = defaults\<lparr>count := 2, manual := True, skip_warmup := True\<rparr>"

text \<open>One automatic capture with no delay; somebody pressing ESC; somebody pressing q.\<close>

definition one_shot :: config where
  "one_shot = defaults\<lparr>count := 1, delay := 0, skip_warmup := True\<rparr>"

definition escape_pressed :: env where
  "escape_pressed = studio\<lparr>key_codes := (\<lambda>k. 27)\<rparr>"

definition q_pressed :: env where
  "q_pressed = studio\<lparr>key_codes := (\<lambda>k. 113)\<rparr>"

text \<open>
  Somebody pressing q while the system clock is set back: the first reading of
  \<^verbatim>\<open>time.time()\<close> gives 10, every later one 8.
\<close>

definition clock_set_back :: env where
  "clock_set_back = q_pressed\<lparr>wall_clock := (\<lambda>k. if k = 0 then 10 else 8)\<rparr>"

text \<open>A camera whose second read fails, and the defaults without the warm-up.\<close>

definition frame_dropped :: env where
  "frame_dropped = studio\<lparr>camera_frames := (\<lambda>k. if k = 1 then None else Some (Frame k []))\<rparr>"

definition no_warmup :: config where
  "no_warmup = defaults\<lparr>skip_warmup := True\<rparr>"

subsection \<open>Invariants\<close>

text \<open>
  The index is one more than the number of calls of \<^verbatim>\<open>cv2.imwrite\<close>, each call so far
  used the name built from its own number, and a countdown only runs for an index within
  the count.
\<close>

definition index_inv :: "env \<Rightarrow> config \<Rightarrow> session \<Rightarrow> bool" where
  "index_inv env cfg s \<longleftrightarrow>
     img_index s = 1 + int (writes s) \<and> stamps s = writes s
     \<and> write_calls (trace s) = map (\<lambda>k. (nth_filename env cfg k, write_ok env k)) [0..<writes s]
     \<and> (control s = Countdown \<longrightarrow> img_index s \<le> count cfg)
     \<and> (img_index s \<le> count cfg + 1 \<or> img_index s = 1)"

text \<open>The discarded reads of \<^verbatim>\<open>for _ in range(n): cap.read()\<close>.\<close>

definition discarded :: "env \<Rightarrow> nat \<Rightarrow> nat \<Rightarrow> event list" where
  "discarded env r n = map (\<lambda>i. DiscardFrame (camera_frames env (r + i))) [0..<n]"

text \<open>
  The effects of the \<^verbatim>\<open>finally\<close> clause are in the trace once each and in their order
  when the run is over, and not at all before.
\<close>

definition finalized_once :: "session \<Rightarrow> bool" where
  "finalized_once s \<longleftrightarrow>
     finalization (trace s) =
       (case control s of Exited c \<Rightarrow> [Release, DestroyAllWindows, Print CleanupDone] | _ \<Rightarrow> [])"

text \<open>A run that is over ended with exit code 0, or with 1 and the report of the exception.\<close>

definition exit_inv :: "session \<Rightarrow> bool" where
  "exit_inv s \<longleftrightarrow>
     (case control s of
        Exited c \<Rightarrow> c = 0 \<or> (c = 1 \<and> Traceback AttributeError \<in> set (trace s))
      | _ \<Rightarrow> True)"

text \<open>
  No key has been polled and no request to quit printed, and a countdown that is running
  holds a frame and started at an earlier reading of the clock.
\<close>

definition unpolled :: "env \<Rightarrow> session \<Rightarrow> bool" where
  "unpolled env s \<longleftrightarrow>
     keys_polled (trace s) = [] \<and> Print QuitRequest \<notin> set (trace s)
     \<and> (control s = Countdown \<longrightarrow> frame s \<noteq> None \<and> (\<exists>k<ticks s. start_time s = wall_clock env k))"

text \<open>
  Manual mode: there is no countdown; so far SPACE has been seen once for each write
  call and nothing else, or a single ESC after them, seen while the index was within the
  count, has ended the run with exit code 0.
\<close>

definition manual_inv :: "config \<Rightarrow> session \<Rightarrow> bool" where
  "manual_inv cfg s \<longleftrightarrow>
     (case control s of
        OuterLoop \<Rightarrow> commands_seen (trace s) = replicate (writes s) 32
      | Countdown \<Rightarrow> False
      | Exited c \<Rightarrow>
          commands_seen (trace s) = replicate (writes s) 32 @ [27] \<and> img_index s \<le> count cfg \<and> c = 0
          \<or> commands_seen (trace s) = replicate (writes s) 32)"

section \<open>Properties\<close>

subsection \<open>Runs\<close>

lemma steps_add: "steps (m + n) env cfg s = steps m env cfg (steps n env cfg s)"
  by (induction m) simp_all

lemma main_Suc: "main env cfg (Suc n) = step env cfg (main env cfg n)"
  by (simp add: main_def)

lemma main_0: "main env cfg 0 = main_init env cfg"
  by (simp add: main_def)

lemma main_add: "main env cfg (m + n) = steps m env cfg (main env cfg n)"
  by (simp add: main_def steps_add)

lemma step_Exited: "control s = Exited c \<Longrightarrow> step env cfg s = s"
  by (simp add: step_def)

lemma steps_Exited: "control s = Exited c \<Longrightarrow> steps n env cfg s = s"
  by (induction n) (simp_all add: step_Exited)

subsection \<open>Traces\<close>

lemmas event_defs = write_call_def key_poll_def is_finalization_def is_discard_def is_captured_def
  is_captured_or_skipped_def

lemma write_calls_append [simp]: "write_calls (xs @ ys) = write_calls xs @ write_calls ys"
  by (simp add: write_calls_def)

lemma write_calls_Nil [simp]: "write_calls [] = []"
  by (simp add: write_calls_def)

lemma write_calls_Cons [simp]: "write_calls (e # es) = write_call e @ write_calls es"
  by (simp add: write_calls_def)

lemma keys_polled_append [simp]: "keys_polled (xs @ ys) = keys_polled xs @ keys_polled ys"
  by (simp add: keys_polled_def)

lemma keys_polled_Nil [simp]: "keys_polled [] = []"
  by (simp add: keys_polled_def)

lemma keys_polled_Cons [simp]: "keys_polled (e # es) = key_poll e @ keys_polled es"
  by (simp add: keys_polled_def)

lemma finalization_append [simp]: "finalization (xs @ ys) = finalization xs @ finalization ys"
  by (simp add: finalization_def)

lemma finalization_Nil [simp]: "finalization [] = []"
  by (simp add: finalization_def)

lemma finalization_Cons [simp]:
  "finalization (e # es) = (if is_finalization e then e # finalization es else finalization es)"
  by (simp add: finalization_def)

lemma discard_fields [simp]:
  "img_index (cap_read_discard n env s) = img_index s"
  "frame (cap_read_discard n env s) = frame s"
  "start_time (cap_read_discard n env s) = start_time s"
  "control (cap_read_discard n env s) = control s"
  "polls (cap_read_discard n env s) = polls s"
  "ticks (cap_read_discard n env s) = ticks s"
  "stamps (cap_read_discard n env s) = stamps s"
  "writes (cap_read_discard n env s) = writes s"
  "reads (cap_read_discard n env s) = reads s + n"
  by (induction n arbitrary: s) (simp_all add: emit_def)

lemma discard_trace [simp]:
  "trace (cap_read_discard n env s) = trace s @ discarded env (reads s) n"
proof (induction n arbitrary: s)
  case 0
  show ?case by (simp add: discarded_def)
next
  case (Suc n)
  have "[0..<Suc n] = 0 # map Suc [0..<n]"
    by (simp add: upt_conv_Cons map_Suc_upt del: upt_Suc)
  then show ?case
    by (simp add: Suc emit_def comp_def discarded_def del: upt_Suc)
qed

lemma length_discarded [simp]: "length (discarded env r n) = n"
  by (simp add: discarded_def)

lemma write_calls_discarded [simp]: "write_calls (discarded env r n) = []"
  by (induction n) (simp_all add: discarded_def write_call_def)

lemma keys_polled_discarded [simp]: "keys_polled (discarded env r n) = []"
  by (induction n) (simp_all add: discarded_def key_poll_def)

lemma finalization_discarded [simp]: "finalization (discarded env r n) = []"
  by (induction n) (simp_all add: discarded_def is_finalization_def)

lemma print_not_discarded [simp]: "Print m \<notin> set (discarded env r n)"
  by (auto simp: discarded_def)

lemmas op_defs = emit_def cap_read_def waitKey_def time_time_def capture_def finish_def
  manual_iteration_def outer_iteration_def final_capture_def countdown_iteration_def

subsection \<open>Index invariant\<close>

lemma index_inv_init: "index_inv env cfg (main_init env cfg)"
  by (simp add: index_inv_def main_init_def ensure_dir_def blank_def emit_def Let_def write_call_def
      split: option.splits)

lemma index_inv_step: "index_inv env cfg s \<Longrightarrow> index_inv env cfg (step env cfg s)"
  unfolding index_inv_def step_def
  by (auto simp: op_defs Let_def nth_filename_def write_call_def split: control.splits option.splits)

lemma index_inv_main: "index_inv env cfg (main env cfg n)"
  by (induction n) (simp_all add: main_0 main_Suc index_inv_init index_inv_step)

subsection \<open>Formatting\<close>

lemma below_ten: "d < 10 \<Longrightarrow> d \<in> {0, 1, 2, 3, 4, 5, 6, 7, 8, 9::nat}"
  by auto

lemma digit_value_digit_char: "d < 10 \<Longrightarrow> digit_value (digit_char d) = d"
  by (drule below_ten) (auto simp: digit_value_def digit_char_def)

lemma digit_char_plain: "d < 10 \<Longrightarrow> digit_char d \<noteq> CHR ''_'' \<and> digit_char d \<noteq> CHR ''-''"
  by (drule below_ten) (auto simp: digit_char_def)

lemma number_of_snoc: "number_of (s @ [c]) = 10 * number_of s + digit_value c"
  by (simp add: number_of_def)

lemma number_of_digits: "number_of (digits n) = n"
proof (induction n rule: digits.induct)
  case (1 n)
  show ?case
  proof (cases "n < 10")
    case True
    then show ?thesis
      by (subst digits.simps) (simp add: number_of_def digit_value_digit_char)
  next
    case False
    then have "number_of (digits (n div 10)) = n div 10"
      using 1 by simp
    with False show ?thesis
      by (subst digits.simps) (simp add: number_of_snoc digit_value_digit_char)
  qed
qed

lemma digits_plain: "c \<in> set (digits n) \<Longrightarrow> c \<noteq> CHR ''_'' \<and> c \<noteq> CHR ''-''"
proof (induction n rule: digits.induct)
  case (1 n)
  show ?case
  proof (cases "n < 10")
    case True
    with 1(2) show ?thesis
      by (subst (asm) digits.simps) (simp add: digit_char_plain)
  next
    case False
    with 1 show ?thesis
      by (subst (asm) (2) digits.simps) (auto simp: digit_char_plain)
  qed
qed

lemma number_of_zeros: "number_of (replicate k CHR ''0'' @ s) = number_of s"
  by (induction k) (simp_all add: number_of_def digit_value_def)

lemma number_of_zfill: "number_of (zfill w s) = number_of s"
  by (simp add: zfill_def number_of_zeros)

lemma zfill_plain: "c \<in> set (zfill w (digits n)) \<Longrightarrow> c \<noteq> CHR ''_'' \<and> c \<noteq> CHR ''-''"
  by (auto simp: zfill_def dest: digits_plain)

lemma zfill_not_Nil: "zfill w (digits n) \<noteq> []"
  by (subst digits.simps) (simp add: zfill_def)

text \<open>Reading back what \<^verbatim>\<open>{idx:03d}\<close> printed gives the index.\<close>

lemma int_of_format_03d: "int_of (format_03d i) = i"
proof (cases "i < 0")
  case True
  then show ?thesis
    by (simp add: int_of_def format_03d_def number_of_zfill number_of_digits)
next
  case False
  obtain c r where cr: "zfill 3 (digits (nat i)) = c # r"
    using zfill_not_Nil [of 3 "nat i"] by (cases "zfill 3 (digits (nat i))") auto
  then have "c \<in> set (zfill 3 (digits (nat i)))"
    by simp
  then have "c \<noteq> CHR ''-''"
    using zfill_plain by blast
  moreover have "number_of (c # r) = nat i"
    using cr number_of_zfill [of 3 "digits (nat i)"] by (simp add: number_of_digits)
  ultimately show ?thesis
    using False cr by (simp add: int_of_def format_03d_def)
qed

lemma format_03d_inj: "format_03d i = format_03d j \<Longrightarrow> i = j"
  by (metis int_of_format_03d)

lemma format_03d_no_underscore: "CHR ''_'' \<notin> set (format_03d i)"
  using zfill_plain by (auto simp: format_03d_def)

lemma takeWhile_upto: "z \<notin> set a \<Longrightarrow> takeWhile (\<lambda>c. c \<noteq> z) (a @ z # x) = a"
  by (induction a) auto

lemma split_at_underscore:
  assumes "CHR ''_'' \<notin> set a" "CHR ''_'' \<notin> set b" "a @ CHR ''_'' # x = b @ CHR ''_'' # y"
  shows "a = b"
  using takeWhile_upto [OF assms(1), of x] takeWhile_upto [OF assms(2), of y] assms(3) by simp

lemma build_filename_inj:
  assumes "build_filename folder pre i t = build_filename folder pre j u"
  shows "i = j"
proof -
  from assms have "format_03d i @ CHR ''_'' # (strftime t @ ''.jpg'')
      = format_03d j @ CHR ''_'' # (strftime u @ ''.jpg'')"
    by (simp add: build_filename_def path_join_def)
  then have "format_03d i = format_03d j"
    by (rule split_at_underscore [OF format_03d_no_underscore format_03d_no_underscore])
  then show ?thesis
    by (rule format_03d_inj)
qed

lemma nth_filename_inj: "nth_filename env cfg i = nth_filename env cfg j \<Longrightarrow> i = j"
  by (auto simp: nth_filename_def dest: build_filename_inj)

lemma format_03d_nat: "format_03d (int n) = zfill 3 (digits n)"
  by (simp add: format_03d_def)

lemma digits_length_le: "n < 1000 \<Longrightarrow> length (digits n) \<le> 3"
  by (subst digits.simps, subst digits.simps, subst digits.simps) simp

lemma format_03d_three: "0 \<le> i \<Longrightarrow> i < 1000 \<Longrightarrow> length (format_03d i) = 3"
  using digits_length_le [of "nat i"] by (simp add: format_03d_def zfill_def)

subsection \<open>File names\<close>

lemma write_names_main:
  "map fst (write_calls (trace (main env cfg n))) = map (nth_filename env cfg) [0..<writes (main env cfg n)]"
  using index_inv_main [of env cfg n] by (simp add: index_inv_def comp_def)

lemma write_names_distinct: "distinct (map fst (write_calls (trace (main env cfg n))))"
  unfolding write_names_main
  by (simp add: distinct_map inj_on_def) (blast dest: nth_filename_inj)

text \<open>
  Claim C7. Within a run no two written files have the same name: the call number \<open>k\<close>
  of \<^verbatim>\<open>cv2.imwrite\<close> (counted from 0) uses the index \<open>k + 1\<close> in its name, whatever reads
  failed in between, the index of the session is always one more than the number of
  calls so far, and two names built from different indices differ.
\<close>

theorem filenames_distinct:
  "distinct (files_written (trace (main env cfg n)))
   \<and> map fst (write_calls (trace (main env cfg n)))
       = map (\<lambda>k. build_filename (output_dir cfg) (prefix cfg) (1 + int k) (local_time env k))
           [0..<writes (main env cfg n)]
   \<and> img_index (main env cfg n) = 1 + int (writes (main env cfg n))"
proof -
  have "distinct (map fst (filter snd (write_calls (trace (main env cfg n)))))"
    using write_names_distinct by (rule distinct_map_filter)
  moreover have "img_index (main env cfg n) = 1 + int (writes (main env cfg n))"
    using index_inv_main [of env cfg n] by (simp add: index_inv_def)
  ultimately show ?thesis
    using write_names_main [of env cfg n] by (simp add: files_written_def nth_filename_def)
qed

subsection \<open>Running the script on given surroundings\<close>

lemma upt_0_5: "[0..<5] = [0, 1, 2, 3, 4]"
  by (simp add: upt_conv_Cons)

lemma discarded_5:
  "discarded env r 5 = [DiscardFrame (camera_frames env r), DiscardFrame (camera_frames env (r + 1)),
     DiscardFrame (camera_frames env (r + 2)), DiscardFrame (camera_frames env (r + 3)),
     DiscardFrame (camera_frames env (r + 4))]"
  by (simp add: discarded_def upt_0_5)

lemmas run_defs = main_def main_init_def ensure_dir_def blank_def step_def op_defs py_int_def Let_def
  discarded_5 event_defs files_written_def studio_def defaults_def

lemma replicate_2: "replicate 2 x = [x, x]"
  by (simp add: numeral_2_eq_2)

lemma replicate_3: "replicate 3 x = [x, x, x]"
  by (simp add: numeral_3_eq_3)

lemmas name_defs = build_filename_def path_join_def format_03d_def zfill_def strftime_def
  digits.simps digit_char_def noon_def replicate_2 replicate_3

lemmas text_defs = str_int_def digits.simps digit_char_def remaining_def

subsection \<open>The index and the files\<close>

lemma step_index:
  "img_index (step env cfg s) = img_index s \<and> write_calls (trace (step env cfg s)) = write_calls (trace s)
   \<or> img_index (step env cfg s) = img_index s + 1
      \<and> (\<exists>c. write_calls (trace (step env cfg s)) = write_calls (trace s) @ [c])"
  unfolding step_def
  by (auto simp: op_defs Let_def write_call_def split: control.splits option.splits)

lemma length_filter_split: "length (filter P xs) = length xs - length (filter (\<lambda>x. \<not> P x) xs)"
  using sum_length_filter_compl [of P xs] by simp

lemma files_written_main:
  "files_written (trace (main env cfg n)) = map (nth_filename env cfg) (filter (write_ok env) [0..<writes (main env cfg n)])"
  using index_inv_main [of env cfg n]
  by (simp add: index_inv_def files_written_def filter_map comp_def)

text \<open>
  Claim C10, as the script has it. For a count that is not negative, after any number of
  steps and in both modes: the index lies between 1 and the count plus one; the number
  of calls of \<^verbatim>\<open>cv2.imwrite\<close> so far is the index minus one; the number of files written
  is that number less the calls that returned false, because the script advances the
  index without looking at the result of the call; and a step either leaves the index
  and the calls as they are or adds one to the index and one call.
\<close>

theorem index_counts_write_calls:
  assumes "0 \<le> count cfg"
  shows "1 \<le> img_index (main env cfg n) \<and> img_index (main env cfg n) \<le> count cfg + 1
    \<and> int (length (write_calls (trace (main env cfg n)))) = img_index (main env cfg n) - 1
    \<and> int (length (files_written (trace (main env cfg n))))
        = img_index (main env cfg n) - 1
          - int (length (filter (\<lambda>k. \<not> write_ok env k) [0..<writes (main env cfg n)]))
    \<and> (img_index (main env cfg (Suc n)) = img_index (main env cfg n)
         \<and> write_calls (trace (main env cfg (Suc n))) = write_calls (trace (main env cfg n))
        \<or> img_index (main env cfg (Suc n)) = img_index (main env cfg n) + 1
         \<and> (\<exists>c. write_calls (trace (main env cfg (Suc n))) = write_calls (trace (main env cfg n)) @ [c]))"
proof -
  let ?s = "main env cfg n"
  have inv: "index_inv env cfg ?s"
    by (rule index_inv_main)
  have "length (filter (write_ok env) [0..<writes ?s])
      = writes ?s - length (filter (\<lambda>k. \<not> write_ok env k) [0..<writes ?s])"
    using length_filter_split [of "write_ok env" "[0..<writes ?s]"] by simp
  moreover have "length (filter (\<lambda>k. \<not> write_ok env k) [0..<writes ?s]) \<le> writes ?s"
    using length_filter_le [of "\<lambda>k. \<not> write_ok env k" "[0..<writes ?s]"] by simp
  ultimately have files: "int (length (files_written (trace ?s)))
      = img_index ?s - 1 - int (length (filter (\<lambda>k. \<not> write_ok env k) [0..<writes ?s]))"
    using inv by (simp add: files_written_main index_inv_def)
  have bounds: "1 \<le> img_index ?s \<and> img_index ?s \<le> count cfg + 1
      \<and> int (length (write_calls (trace ?s))) = img_index ?s - 1"
    using inv assms by (auto simp: index_inv_def)
  show ?thesis
    using bounds files step_index [of env cfg ?s] by (simp only: main_Suc)
qed

text \<open>
  The theorem on a manual run of two images in which SPACE is pressed and the write
  fails: one call, no file.
\<close>

theorem index_counts_write_calls_witness:
  "0 \<le> count two_by_hand \<and> img_index (main full_disk two_by_hand 1) \<le> 3
   \<and> int (length (files_written (trace (main full_disk two_by_hand 1))))
       = img_index (main full_disk two_by_hand 1) - 1 - 1"
proof -
  have "writes (main full_disk two_by_hand 1) = 1"
    by (simp add: run_defs full_disk_def two_by_hand_def)
  then show ?thesis
    using index_counts_write_calls [of two_by_hand full_disk 1]
    by (simp add: two_by_hand_def defaults_def full_disk_def)
qed

text \<open>
  Claim C10 as stated fails on that run: after the first pass the index is 2 and no
  file has been written, so the number of files is not the index minus one.
\<close>

theorem files_equal_index_counterexample:
  "img_index (main full_disk two_by_hand 1) = 2
   \<and> files_written (trace (main full_disk two_by_hand 1)) = []
   \<and> int (length (files_written (trace (main full_disk two_by_hand 1))))
       \<noteq> img_index (main full_disk two_by_hand 1) - 1"
  by (simp add: run_defs full_disk_def two_by_hand_def)

subsection \<open>Finalization\<close>

lemma finalized_once_init:
  "mkdir (output_path env) = None \<Longrightarrow> camera_opens env \<Longrightarrow> finalized_once (main_init env cfg)"
  by (simp add: finalized_once_def main_init_def ensure_dir_def blank_def emit_def Let_def is_finalization_def)

lemma finalized_once_step: "finalized_once s \<Longrightarrow> finalized_once (step env cfg s)"
  unfolding finalized_once_def step_def
  by (auto simp: op_defs Let_def is_finalization_def split: control.splits option.splits)

lemma finalized_once_main:
  "mkdir (output_path env) = None \<Longrightarrow> camera_opens env \<Longrightarrow> finalized_once (main env cfg n)"
  by (induction n) (simp_all add: main_0 main_Suc finalized_once_init finalized_once_step)

text \<open>
  Claim C5. In a run that got past the start (the directory is there and the camera
  opened), releasing the camera, closing the windows and the line \<^verbatim>\<open>Cleanup done.\<close> have
  happened exactly once each, in this order, as soon as the run is over, however it
  ended, and have not happened while it is still going.
\<close>

theorem finalization_exactly_once:
  assumes "mkdir (output_path env) = None" "camera_opens env"
  shows "finalization (trace (main env cfg n)) =
           (case control (main env cfg n) of
              Exited c \<Rightarrow> [Release, DestroyAllWindows, Print CleanupDone]
            | _ \<Rightarrow> [])"
  using finalized_once_main [OF assms] by (simp add: finalized_once_def)

text \<open>
  The three ways to end that the claim names, and a run that is still going: an automatic
  run that completes its one capture, a manual run in which ESC is pressed, an automatic
  run in which q is pressed during the countdown, and the default run after two steps.
\<close>

theorem finalization_exactly_once_witness:
  "mkdir (output_path studio) = None \<and> camera_opens studio
   \<and> control (main studio one_shot 3) = Exited 0
   \<and> finalization (trace (main studio one_shot 3)) = [Release, DestroyAllWindows, Print CleanupDone]
   \<and> control (main escape_pressed two_by_hand 1) = Exited 0
   \<and> finalization (trace (main escape_pressed two_by_hand 1)) = [Release, DestroyAllWindows, Print CleanupDone]
   \<and> control (main q_pressed defaults 2) = Exited 0
   \<and> finalization (trace (main q_pressed defaults 2)) = [Release, DestroyAllWindows, Print CleanupDone]
   \<and> control (main studio defaults 2) = Countdown
   \<and> finalization (trace (main studio defaults 2)) = []"
proof -
  have a: "mkdir (output_path studio) = None" "camera_opens studio"
    by (simp_all add: studio_def)
  have b: "mkdir (output_path escape_pressed) = None" "camera_opens escape_pressed"
    by (simp_all add: studio_def escape_pressed_def)
  have c: "mkdir (output_path q_pressed) = None" "camera_opens q_pressed"
    by (simp_all add: studio_def q_pressed_def)
  have 1: "control (main studio one_shot 3) = Exited 0"
    by (simp add: run_defs one_shot_def eval_nat_numeral)
  have 2: "control (main escape_pressed two_by_hand 1) = Exited 0"
    by (simp add: run_defs escape_pressed_def two_by_hand_def)
  have 3: "control (main q_pressed defaults 2) = Exited 0"
    by (simp add: run_defs q_pressed_def eval_nat_numeral)
  have 4: "control (main studio defaults 2) = Countdown"
    by (simp add: run_defs eval_nat_numeral)
  show ?thesis
    using a 1 2 3 4
      finalization_exactly_once [OF a, of one_shot 3]
      finalization_exactly_once [OF b, of two_by_hand 1]
      finalization_exactly_once [OF c, of defaults 2]
      finalization_exactly_once [OF a, of defaults 2]
    by simp
qed

subsection \<open>A read that fails during the countdown\<close>

text \<open>
  When the read that refreshes the preview fails, \<^verbatim>\<open>ret, frame = cap.read()\<close> has put
  \<^verbatim>\<open>None\<close> into \<open>frame\<close>; the warning and the pause follow, and the next pass through the
  countdown calls \<^verbatim>\<open>frame.copy()\<close> on it.
\<close>

lemma countdown_read_failure:
  assumes "control s = Countdown" "frame s = Some img" "0 < remaining env cfg s"
    "key_codes env (polls s) AND 0xFF \<noteq> 113" "camera_frames env (reads s) = None"
  shows "control (step env cfg s) = Countdown \<and> frame (step env cfg s) = None
    \<and> trace (step env cfg (step env cfg s))
        = trace (step env cfg s) @ [Release, DestroyAllWindows, Print CleanupDone, Traceback AttributeError]
    \<and> control (step env cfg (step env cfg s)) = Exited 1"
  using assms by (simp add: step_def op_defs Let_def remaining_def)

text \<open>
  Claim C2 against the script. With the defaults (a delay of 3 seconds) and a camera
  whose read during the first tick of the countdown fails, the script prints the
  warning and sleeps, and then holds no frame: the next render raises
  \<^verbatim>\<open>AttributeError\<close>, which ends the run after the clean-up with exit code 1. No stale
  frame is shown.
\<close>

theorem countdown_read_failure_aborts:
  "control (main frame_dropped no_warmup 2) = Countdown
   \<and> frame (main frame_dropped no_warmup 2) = None
   \<and> control (main frame_dropped no_warmup 3) = Exited 1
   \<and> loop_trace frame_dropped no_warmup 3 =
       [ReadFrame (Some (Frame 0 [])), Imshow (Frame 0 [''Capturing in 2 sec'', ''1/5'']),
        WaitKey 100 (- 1), ReadFrame None, Print WarningCountdown, Sleep 50,
        Release, DestroyAllWindows, Print CleanupDone, Traceback AttributeError]"
  by (simp add: run_defs loop_trace_def frame_dropped_def no_warmup_def eval_nat_numeral text_defs)

subsection \<open>Exit codes\<close>

text \<open>A failure of the start: the diagnostic is the only line printed and the exit code is 1.\<close>

lemma start_failure_exit_code:
  assumes "mkdir (output_path env) = Some e \<or> \<not> camera_opens env"
  shows "exit_code (main env cfg n) = Some 1
    \<and> trace (main env cfg n) =
        (case mkdir (output_path env) of
           Some e \<Rightarrow> [Print (ErrorDirectory (output_dir cfg) e)]
         | None \<Rightarrow> [OpenCamera (camera cfg), Print (ErrorCamera (camera cfg))])"
proof -
  have "control (main_init env cfg) = Exited 1
    \<and> trace (main_init env cfg) =
        (case mkdir (output_path env) of
           Some e \<Rightarrow> [Print (ErrorDirectory (output_dir cfg) e)]
         | None \<Rightarrow> [OpenCamera (camera cfg), Print (ErrorCamera (camera cfg))])"
    using assms
    by (auto simp: main_init_def ensure_dir_def blank_def emit_def Let_def split: option.splits)
  then show ?thesis
    by (simp add: main_def steps_Exited exit_code_def)
qed

lemma existing_directory_accepted: "mkdir Directory = None"
  by simp

text \<open>The two diagnostics name what failed: the path with the exception, or the camera index.\<close>

lemma diagnostics_name_the_failure:
  "text_of (ErrorDirectory p e) = ''ERROR: Unable to create output directory '' @ p @ '': '' @ e
   \<and> text_of (ErrorCamera 2) = ''ERROR: Cannot open camera index 2''"
  by (simp add: text_defs)

text \<open>
  When another kind of file has the name of the output directory, the one line printed
  carries the path and the text of the exception, and the exit code is 1.
\<close>

lemma directory_failure_run:
  assumes "output_path env = NonDirectory e"
  shows "exit_code (main env cfg n) = Some 1
    \<and> trace (main env cfg n) = [Print (ErrorDirectory (output_dir cfg) e)]"
  using start_failure_exit_code [of env e cfg n] assms by simp

text \<open>With the directory already there and a camera that opens, the run enters the loop.\<close>

lemma existing_directory_starts:
  "output_path env = Directory \<Longrightarrow> camera_opens env \<Longrightarrow> control (main_init env cfg) = OuterLoop"
  by (simp add: main_init_def ensure_dir_def blank_def emit_def Let_def)

lemma exit_inv_step: "exit_inv s \<Longrightarrow> exit_inv (step env cfg s)"
  unfolding exit_inv_def step_def
  by (auto simp: op_defs Let_def split: control.splits option.splits)

lemma exit_inv_main:
  assumes "mkdir (output_path env) = None" "camera_opens env"
  shows "exit_inv (main env cfg n)"
proof (induction n)
  case 0
  show ?case
    using assms by (simp add: main_0 exit_inv_def main_init_def ensure_dir_def blank_def emit_def Let_def)
next
  case (Suc n)
  then show ?case
    by (simp add: main_Suc exit_inv_step)
qed

text \<open>After a good start the exit code is 0, unless the exception above ended the run.\<close>

lemma exit_code_after_start:
  assumes "mkdir (output_path env) = None" "camera_opens env" "exit_code (main env cfg n) = Some c"
  shows "c = 0 \<or> (c = 1 \<and> Traceback AttributeError \<in> set (trace (main env cfg n)))"
  using exit_inv_main [OF assms(1,2), of cfg n] assms(3)
  by (auto simp: exit_inv_def exit_code_def split: control.splits)

text \<open>
  Claim C6 against the script. The directory could be created and the camera opened,
  and still the process ends with exit code 1, having printed neither diagnostic: the
  run is the one of claim C2.
\<close>

theorem crash_exit_code:
  "mkdir (output_path frame_dropped) = None \<and> camera_opens frame_dropped
   \<and> exit_code (main frame_dropped no_warmup 3) = Some 1
   \<and> [m. Print m \<leftarrow> trace (main frame_dropped no_warmup 3)]
       = [Starting ''captured_images'' 5 3 0, WarningCountdown, CleanupDone]"
  by (simp add: run_defs exit_code_def frame_dropped_def no_warmup_def eval_nat_numeral text_defs)

subsection \<open>Cancelling an automatic run\<close>

lemma py_int_nonneg: "0 \<le> x \<Longrightarrow> 0 \<le> py_int x"
  by (simp add: py_int_def)

lemma unpolled_init: "unpolled env (main_init env cfg)"
  by (simp add: unpolled_def main_init_def ensure_dir_def blank_def emit_def Let_def key_poll_def
      split: option.splits)

lemma countdown_over_at_once:
  assumes "delay cfg = 0" "mono (wall_clock env)" "k < ticks s" "start_time s = wall_clock env k"
  shows "remaining env cfg s \<le> 0"
proof -
  have "wall_clock env k \<le> wall_clock env (ticks s)"
    using assms(2,3) by (simp add: monoD)
  then have "0 \<le> py_int (wall_clock env (ticks s) - start_time s)"
    using assms(4) by (simp add: py_int_nonneg)
  then show ?thesis
    using assms(1) by (simp add: remaining_def)
qed

lemma unpolled_step:
  assumes "\<not> manual cfg" "delay cfg = 0" "mono (wall_clock env)" "unpolled env s"
  shows "unpolled env (step env cfg s) \<and> (control s = Countdown \<longrightarrow> control (step env cfg s) = OuterLoop)"
proof (cases "control s")
  case OuterLoop
  then show ?thesis
    using assms(1,4) unfolding unpolled_def step_def
    by (auto simp: op_defs Let_def key_poll_def split: option.splits)
next
  case Countdown
  then obtain img k where f: "frame s = Some img" and k: "k < ticks s" "start_time s = wall_clock env k"
    using assms(4) by (auto simp: unpolled_def)
  have "remaining env cfg s \<le> 0"
    using assms(2,3) k by (rule countdown_over_at_once)
  then have "delay cfg - py_int (wall_clock env (ticks s) - start_time s) \<le> 0"
    by (simp add: remaining_def)
  then show ?thesis
    using Countdown f assms(4) unfolding unpolled_def step_def
    by (auto simp: op_defs Let_def key_poll_def split: option.splits)
next
  case (Exited c)
  then show ?thesis
    using assms(4) by (simp add: step_def)
qed

lemma unpolled_main:
  assumes "\<not> manual cfg" "delay cfg = 0" "mono (wall_clock env)"
  shows "unpolled env (main env cfg n)"
  by (induction n) (simp_all add: main_0 main_Suc unpolled_init unpolled_step [OF assms])

lemma quit_step:
  assumes "\<not> manual cfg" "Print QuitRequest \<in> set (trace (step env cfg s))"
  shows "Print QuitRequest \<in> set (trace s) \<or> control s = Countdown \<and> 0 < remaining env cfg s"
  using assms unfolding step_def
  by (auto simp: op_defs Let_def remaining_def split: control.splits option.splits if_splits)

lemma quit_init: "Print QuitRequest \<notin> set (trace (main_init env cfg))"
  by (simp add: main_init_def ensure_dir_def blank_def emit_def Let_def split: option.splits)

lemma quit_main:
  assumes "\<not> manual cfg"
  shows "Print QuitRequest \<in> set (trace (main env cfg n))
    \<Longrightarrow> \<exists>m<n. control (main env cfg m) = Countdown \<and> 0 < remaining env cfg (main env cfg m)"
proof (induction n)
  case 0
  then show ?case
    by (simp add: main_0 quit_init)
next
  case (Suc n)
  from quit_step [OF assms, of env "main env cfg n"] Suc.prems
  have "Print QuitRequest \<in> set (trace (main env cfg n))
      \<or> control (main env cfg n) = Countdown \<and> 0 < remaining env cfg (main env cfg n)"
    by (simp add: main_Suc)
  then show ?case
    using Suc.IH less_Suc_eq by auto
qed

text \<open>
  Claim C9, as the script has it. In automatic mode with a delay of 0, as long as the
  readings of \<^verbatim>\<open>time.time()\<close> do not go backwards, every countdown is over in its first
  pass, before \<^verbatim>\<open>cv2.waitKey\<close> is reached: no key is ever polled and no request to quit
  ever seen. And in automatic mode with any delay and any clock, a request to quit is
  only seen after a pass through the countdown in which time was left.
\<close>

theorem no_cancellation_without_delay:
  assumes "\<not> manual cfg"
  shows "(delay cfg = 0 \<and> mono (wall_clock env) \<longrightarrow>
            keys_polled (trace (main env cfg n)) = []
            \<and> Print QuitRequest \<notin> set (trace (main env cfg n))
            \<and> (control (main env cfg n) = Countdown \<longrightarrow> control (main env cfg (Suc n)) = OuterLoop))
       \<and> (Print QuitRequest \<in> set (trace (main env cfg n)) \<longrightarrow>
            (\<exists>m<n. control (main env cfg m) = Countdown \<and> 0 < remaining env cfg (main env cfg m)))"
proof (intro conjI impI)
  assume "Print QuitRequest \<in> set (trace (main env cfg n))"
  then show "\<exists>m<n. control (main env cfg m) = Countdown \<and> 0 < remaining env cfg (main env cfg m)"
    by (rule quit_main [OF assms])
next
  assume h: "delay cfg = 0 \<and> mono (wall_clock env)"
  then have u: "unpolled env (main env cfg n)"
    using assms by (simp add: unpolled_main)
  show "keys_polled (trace (main env cfg n)) = []" "Print QuitRequest \<notin> set (trace (main env cfg n))"
    using u by (simp_all add: unpolled_def)
  assume "control (main env cfg n) = Countdown"
  then show "control (main env cfg (Suc n)) = OuterLoop"
    using unpolled_step [of cfg env "main env cfg n"] assms h u by (simp add: main_Suc)
qed

text \<open>
  The first part on one capture with no delay, the second on the defaults with q pressed
  at the first poll.
\<close>

theorem no_cancellation_without_delay_witness:
  "\<not> manual one_shot \<and> delay one_shot = 0 \<and> mono (wall_clock studio)
   \<and> control (main studio one_shot 1) = Countdown
   \<and> control (main studio one_shot 2) = OuterLoop
   \<and> keys_polled (trace (main studio one_shot 1)) = []
   \<and> \<not> manual defaults
   \<and> Print QuitRequest \<in> set (trace (main q_pressed defaults 2))
   \<and> (\<exists>m<2. control (main q_pressed defaults m) = Countdown
        \<and> 0 < remaining q_pressed defaults (main q_pressed defaults m))"
proof -
  have a: "\<not> manual one_shot" "delay one_shot = 0" "mono (wall_clock studio)"
    by (simp_all add: one_shot_def defaults_def studio_def mono_def)
  have b: "control (main studio one_shot 1) = Countdown"
    by (simp add: run_defs one_shot_def)
  have c: "\<not> manual defaults"
    by (simp add: defaults_def)
  have d: "Print QuitRequest \<in> set (trace (main q_pressed defaults 2))"
    by (simp add: run_defs q_pressed_def eval_nat_numeral)
  show ?thesis
    using a b c d no_cancellation_without_delay [OF a(1), of studio 1]
      no_cancellation_without_delay [OF c, of q_pressed 2]
    by (simp del: One_nat_def)
qed

text \<open>
  Claim C9 as stated fails when the clock is set back. The script measures the countdown
  with \<^verbatim>\<open>time.time()\<close>, which follows the system clock; with the second reading two
  seconds before the first, \<^verbatim>\<open>int\<close> truncates the elapsed time to \<open>-2\<close>, two seconds
  remain of a delay of 0, the key is polled and q ends the run.
\<close>

theorem set_back_clock_counterexample:
  "\<not> manual one_shot \<and> delay one_shot = 0
   \<and> control (main clock_set_back one_shot 1) = Countdown
   \<and> remaining clock_set_back one_shot (main clock_set_back one_shot 1) = 2
   \<and> keys_polled (trace (main clock_set_back one_shot 2)) = [113]
   \<and> Print QuitRequest \<in> set (trace (main clock_set_back one_shot 2))
   \<and> exit_code (main clock_set_back one_shot 2) = Some 0
   \<and> files_written (trace (main clock_set_back one_shot 2)) = []"
  by (simp add: run_defs remaining_def exit_code_def clock_set_back_def q_pressed_def one_shot_def
      eval_nat_numeral)

subsection \<open>A final read that fails\<close>

lemma final_read_failure_step:
  assumes "control s = Countdown" "frame s \<noteq> None" "remaining env cfg s \<le> 0"
    "camera_frames env (reads s) = None"
  shows "control (step env cfg s) = OuterLoop \<and> img_index (step env cfg s) = img_index s
    \<and> trace (step env cfg s) = trace s @ Imshow (putText (putText (the (frame s)) ''Capturing...'')
          (str_int (img_index s) @ ''/'' @ str_int (count cfg)))
        # ReadFrame None # Print WarningFinal # discarded env (Suc (reads s)) 5"
  using assms by (auto simp: step_def op_defs Let_def remaining_def)

lemma outer_read_step:
  assumes "\<not> manual cfg" "control s = OuterLoop" "img_index s \<le> count cfg"
  shows "img_index (step env cfg s) = img_index s
    \<and> write_calls (trace (step env cfg s)) = write_calls (trace s)
    \<and> (case camera_frames env (reads s) of
          None \<Rightarrow> control (step env cfg s) = OuterLoop
        | Some img \<Rightarrow> control (step env cfg s) = Countdown \<and> frame (step env cfg s) = Some img
            \<and> start_time (step env cfg s) = wall_clock env (ticks s)
            \<and> ticks (step env cfg s) = Suc (ticks s))"
  using assms by (auto simp: step_def op_defs Let_def write_call_def split: option.splits)

lemma files_bounded:
  assumes "0 \<le> count cfg"
  shows "int (length (files_written (trace (main env cfg n)))) \<le> count cfg"
proof -
  have "length (filter (write_ok env) [0..<writes (main env cfg n)]) \<le> writes (main env cfg n)"
    using length_filter_le [of "write_ok env" "[0..<writes (main env cfg n)]"] by simp
  moreover have "int (writes (main env cfg n)) \<le> count cfg"
    using index_inv_main [of env cfg n] assms by (auto simp: index_inv_def)
  ultimately show ?thesis
    by (simp add: files_written_main)
qed

text \<open>
  Claim C4. In automatic mode, when a countdown is over and the read of the final frame
  fails, that pass leaves the index and the write calls as they were and goes back to
  the test of the outer loop, which the index still passes: the run goes on. The next
  pass reads again for the same index and, when that read succeeds, starts a countdown
  from a new reading of the clock. At no time are there more files than the count.
\<close>

theorem final_read_failure_retries:
  assumes "\<not> manual cfg" "control (main env cfg n) = Countdown" "frame (main env cfg n) \<noteq> None"
    "remaining env cfg (main env cfg n) \<le> 0" "camera_frames env (reads (main env cfg n)) = None"
  shows "control (main env cfg (Suc n)) = OuterLoop
    \<and> img_index (main env cfg (Suc n)) = img_index (main env cfg n)
    \<and> img_index (main env cfg (Suc n)) \<le> count cfg
    \<and> write_calls (trace (main env cfg (Suc n))) = write_calls (trace (main env cfg n))
    \<and> img_index (main env cfg (Suc (Suc n))) = img_index (main env cfg n)
    \<and> write_calls (trace (main env cfg (Suc (Suc n)))) = write_calls (trace (main env cfg n))
    \<and> (case camera_frames env (reads (main env cfg (Suc n))) of
          None \<Rightarrow> control (main env cfg (Suc (Suc n))) = OuterLoop
        | Some img \<Rightarrow> control (main env cfg (Suc (Suc n))) = Countdown
            \<and> start_time (main env cfg (Suc (Suc n))) = wall_clock env (ticks (main env cfg (Suc n))))
    \<and> int (length (files_written (trace (main env cfg m)))) \<le> count cfg"
proof -
  let ?s = "main env cfg n"
  let ?s' = "step env cfg ?s"
  have le: "img_index ?s \<le> count cfg" and pos: "1 \<le> img_index ?s"
    using index_inv_main [of env cfg n] assms(2) by (auto simp: index_inv_def)
  have one: "control ?s' = OuterLoop \<and> img_index ?s' = img_index ?s
      \<and> write_calls (trace ?s') = write_calls (trace ?s)"
    using final_read_failure_step [OF assms(2-5)] by (simp add: write_call_def)
  then have two: "img_index (step env cfg ?s') = img_index ?s'
    \<and> write_calls (trace (step env cfg ?s')) = write_calls (trace ?s')
    \<and> (case camera_frames env (reads ?s') of
          None \<Rightarrow> control (step env cfg ?s') = OuterLoop
        | Some img \<Rightarrow> control (step env cfg ?s') = Countdown \<and> frame (step env cfg ?s') = Some img
            \<and> start_time (step env cfg ?s') = wall_clock env (ticks ?s')
            \<and> ticks (step env cfg ?s') = Suc (ticks ?s'))"
    using outer_read_step [OF assms(1), of ?s' env] le by simp
  have "int (length (files_written (trace (main env cfg m)))) \<le> count cfg"
    using le pos by (intro files_bounded) simp
  then show ?thesis
    using one two le by (auto simp: main_Suc split: option.splits)
qed

text \<open>One capture with no delay, on the camera whose second read, the final one, fails.\<close>

theorem final_read_failure_retries_witness:
  "\<not> manual one_shot \<and> control (main frame_dropped one_shot 1) = Countdown
   \<and> frame (main frame_dropped one_shot 1) \<noteq> None
   \<and> remaining frame_dropped one_shot (main frame_dropped one_shot 1) \<le> 0
   \<and> camera_frames frame_dropped (reads (main frame_dropped one_shot 1)) = None
   \<and> control (main frame_dropped one_shot 2) = OuterLoop
   \<and> img_index (main frame_dropped one_shot 2) = 1
   \<and> write_calls (trace (main frame_dropped one_shot 2)) = []
   \<and> control (main frame_dropped one_shot 3) = Countdown
   \<and> int (length (files_written (trace (main frame_dropped one_shot 7)))) \<le> 1"
proof -
  have a: "\<not> manual one_shot" "control (main frame_dropped one_shot 1) = Countdown"
    "frame (main frame_dropped one_shot 1) \<noteq> None"
    "remaining frame_dropped one_shot (main frame_dropped one_shot 1) \<le> 0"
    "camera_frames frame_dropped (reads (main frame_dropped one_shot 1)) = None"
    by (simp_all add: run_defs remaining_def one_shot_def frame_dropped_def)
  have b: "img_index (main frame_dropped one_shot 1) = 1"
    "write_calls (trace (main frame_dropped one_shot 1)) = []"
    by (simp_all add: run_defs one_shot_def frame_dropped_def)
  have c: "reads (main frame_dropped one_shot 2) = 7"
    by (simp add: run_defs remaining_def one_shot_def frame_dropped_def eval_nat_numeral)
  have d: "count one_shot = 1"
    by (simp add: one_shot_def)
  show ?thesis
    using a b c d final_read_failure_retries [OF a, of 7]
    by (simp add: eval_nat_numeral frame_dropped_def)
qed

subsection \<open>Manual mode\<close>

lemma manual_inv_init: "manual_inv cfg (main_init env cfg)"
  by (simp add: manual_inv_def main_init_def ensure_dir_def blank_def emit_def Let_def
      commands_seen_def key_poll_def split: option.splits)

lemma manual_inv_step:
  assumes "manual cfg" "manual_inv cfg s"
  shows "manual_inv cfg (step env cfg s)"
proof (cases "control s")
  case OuterLoop
  then show ?thesis
    using assms unfolding manual_inv_def step_def
    by (auto simp: op_defs Let_def commands_seen_def key_poll_def replicate_append_same split: option.splits)
next
  case Countdown
  then show ?thesis
    using assms by (simp add: manual_inv_def)
next
  case (Exited c)
  then show ?thesis
    using assms by (simp add: step_def)
qed

lemma manual_inv_main: "manual cfg \<Longrightarrow> manual_inv cfg (main env cfg n)"
  by (induction n) (simp_all add: main_0 main_Suc manual_inv_init manual_inv_step)

lemma keys_need_start:
  assumes "keys_polled (trace (main env cfg n)) \<noteq> []"
  shows "mkdir (output_path env) = None \<and> camera_opens env"
proof (cases "mkdir (output_path env)")
  case None
  show ?thesis
  proof (rule ccontr)
    assume "\<not> ?thesis"
    then have "\<not> camera_opens env"
      using None by simp
    then have "keys_polled (trace (main env cfg n)) = []"
      using start_failure_exit_code [of env undefined cfg n] None by (simp add: key_poll_def)
    with assms show False
      by simp
  qed
next
  case (Some e)
  then have "keys_polled (trace (main env cfg n)) = []"
    using start_failure_exit_code [of env e cfg n] by (simp add: key_poll_def)
  with assms show ?thesis
    by simp
qed

lemma files_le_writes: "length (files_written (trace (main env cfg n))) \<le> writes (main env cfg n)"
  using length_filter_le [of "write_ok env" "[0..<writes (main env cfg n)]"]
  by (simp add: files_written_main)

lemma escape_ends_run:
  assumes "manual cfg" "27 \<in> set (keys_polled (trace (main env cfg n)))"
  shows "control (main env cfg n) = Exited 0 \<and> img_index (main env cfg n) \<le> count cfg"
proof -
  have "27 \<in> set (commands_seen (trace (main env cfg n)))"
    using assms(2) by (simp add: commands_seen_def)
  then show ?thesis
    using manual_inv_main [OF assms(1), of env n]
    by (auto simp: manual_inv_def split: control.splits)
qed

lemma space_escape_one_write:
  assumes "manual cfg" "commands_seen (trace (main env cfg n)) = [32, 27]"
  shows "control (main env cfg n) = Exited 0 \<and> writes (main env cfg n) = 1"
proof -
  let ?s = "main env cfg n"
  have 27: "27 \<in> set (commands_seen (trace ?s))"
    using assms(2) by simp
  then have "commands_seen (trace ?s) = replicate (writes ?s) 32 @ [27] \<and> control ?s = Exited 0"
    using manual_inv_main [OF assms(1), of env n]
    by (auto simp: manual_inv_def split: control.splits)
  moreover from this have "length (commands_seen (trace ?s)) = writes ?s + 1"
    by simp
  ultimately show ?thesis
    using assms(2) by simp
qed

text \<open>
  Claim C8, as the script has it. In manual mode, once ESC has been polled the run is
  over with exit code 0, the clean-up has happened once, and fewer files than the count
  have been written. When the script has seen SPACE once and then ESC, the run is over,
  the index is 2 and \<^verbatim>\<open>cv2.imwrite\<close> has been called exactly once, for the name with
  index 1; that one file exists if the call returned true, and no file otherwise.
\<close>

theorem manual_cancel:
  assumes "manual cfg"
  shows "(27 \<in> set (keys_polled (trace (main env cfg n))) \<longrightarrow>
            control (main env cfg n) = Exited 0
            \<and> finalization (trace (main env cfg n)) = [Release, DestroyAllWindows, Print CleanupDone]
            \<and> int (length (files_written (trace (main env cfg n)))) < count cfg)
       \<and> (commands_seen (trace (main env cfg n)) = [32, 27] \<longrightarrow>
            control (main env cfg n) = Exited 0 \<and> img_index (main env cfg n) = 2
            \<and> map fst (write_calls (trace (main env cfg n)))
                = [build_filename (output_dir cfg) (prefix cfg) 1 (local_time env 0)]
            \<and> files_written (trace (main env cfg n))
                = (if write_ok env 0
                   then [build_filename (output_dir cfg) (prefix cfg) 1 (local_time env 0)] else []))"
proof (intro conjI impI)
  let ?s = "main env cfg n"
  assume esc: "27 \<in> set (keys_polled (trace ?s))"
  then have e: "control ?s = Exited 0" "img_index ?s \<le> count cfg"
    using escape_ends_run [OF assms] by simp_all
  show "control ?s = Exited 0"
    by (rule e)
  have "keys_polled (trace ?s) \<noteq> []"
    using esc by auto
  then have "finalized_once ?s"
    using keys_need_start finalized_once_main by blast
  then show "finalization (trace ?s) = [Release, DestroyAllWindows, Print CleanupDone]"
    using e(1) by (simp add: finalized_once_def)
  have "img_index ?s = 1 + int (writes ?s)"
    using index_inv_main [of env cfg n] by (simp add: index_inv_def)
  then show "int (length (files_written (trace ?s))) < count cfg"
    using e(2) files_le_writes [of env cfg n] by simp
next
  let ?s = "main env cfg n"
  assume "commands_seen (trace ?s) = [32, 27]"
  then have w: "control ?s = Exited 0" "writes ?s = 1"
    using space_escape_one_write [OF assms] by simp_all
  show "control ?s = Exited 0"
    by (rule w)
  show "img_index ?s = 2"
    using index_inv_main [of env cfg n] w(2) by (simp add: index_inv_def)
  show "map fst (write_calls (trace ?s)) = [build_filename (output_dir cfg) (prefix cfg) 1 (local_time env 0)]"
    using write_names_main [of env cfg n] w(2) by (simp add: nth_filename_def)
  show "files_written (trace ?s)
      = (if write_ok env 0 then [build_filename (output_dir cfg) (prefix cfg) 1 (local_time env 0)] else [])"
    using files_written_main [of env cfg n] w(2) by (simp add: nth_filename_def)
qed

text \<open>Two images by hand, SPACE then ESC, on a disk that takes the file.\<close>

theorem manual_cancel_witness:
  "manual two_by_hand
   \<and> 27 \<in> set (keys_polled (trace (main space_then_escape two_by_hand 2)))
   \<and> commands_seen (trace (main space_then_escape two_by_hand 2)) = [32, 27]
   \<and> control (main space_then_escape two_by_hand 2) = Exited 0
   \<and> img_index (main space_then_escape two_by_hand 2) = 2
   \<and> int (length (files_written (trace (main space_then_escape two_by_hand 2)))) < 2
   \<and> files_written (trace (main space_then_escape two_by_hand 2))
       = [''captured_images/image_001_20240517_120000.jpg'']"
proof -
  have a: "manual two_by_hand"
    by (simp add: two_by_hand_def)
  have b: "keys_polled (trace (main space_then_escape two_by_hand 2)) = [32, 27]"
    by (simp add: run_defs space_then_escape_def two_by_hand_def eval_nat_numeral)
  have c: "write_ok space_then_escape 0" "local_time space_then_escape 0 = noon\<lparr>second := 0\<rparr>"
    "output_dir two_by_hand = ''captured_images''" "prefix two_by_hand = ''image''" "count two_by_hand = 2"
    by (simp_all add: space_then_escape_def studio_def two_by_hand_def defaults_def)
  show ?thesis
    using a b c manual_cancel [OF a, of space_then_escape 2]
    by (simp add: commands_seen_def name_defs)
qed

text \<open>
  Claim C8 as stated fails when the write fails: SPACE once, then ESC, the index ends
  at 2, and there is no file.
\<close>

theorem one_capture_one_file_counterexample:
  "manual two_by_hand
   \<and> commands_seen (trace (main full_disk two_by_hand 2)) = [32, 27]
   \<and> control (main full_disk two_by_hand 2) = Exited 0
   \<and> img_index (main full_disk two_by_hand 2) = 2
   \<and> files_written (trace (main full_disk two_by_hand 2)) = []
   \<and> length (files_written (trace (main full_disk two_by_hand 2))) \<noteq> 1"
  by (simp add: run_defs commands_seen_def full_disk_def two_by_hand_def eval_nat_numeral)

subsection \<open>Discarded reads\<close>

lemma leading_discards_append:
  "leading_discards (es @ ys) =
     (if leading_discards es = length es then length es + leading_discards ys else leading_discards es)"
  unfolding leading_discards_def
proof (induction es)
  case Nil
  show ?case by simp
next
  case (Cons e es)
  have "length (takeWhile is_discard es) \<le> length es"
    by (rule length_takeWhile_le)
  with Cons show ?case
    by auto
qed

lemma leading_discards_le: "leading_discards es \<le> length es"
  by (simp add: leading_discards_def length_takeWhile_le)

lemma discard_blocks_start:
  assumes "\<And>e. anchor e \<Longrightarrow> \<not> is_discard e" "discard_blocks anchor ys"
  shows "leading_discards ys = 0"
  using assms by (cases ys) (auto simp: leading_discards_def split: if_splits)

lemma discard_blocks_append:
  "(\<And>e. anchor e \<Longrightarrow> \<not> is_discard e) \<Longrightarrow> discard_blocks anchor xs \<Longrightarrow> discard_blocks anchor ys
    \<Longrightarrow> discard_blocks anchor (xs @ ys)"
proof (induction anchor xs rule: discard_blocks.induct)
  case (1 anchor)
  then show ?case by simp
next
  case (2 anchor e es)
  show ?case
  proof (cases "anchor e")
    case True
    with "2.prems" have five: "leading_discards es = 5" and rest: "discard_blocks anchor (drop 5 es)"
      by simp_all
    have len: "5 \<le> length es"
      using five leading_discards_le [of es] by simp
    have "leading_discards ys = 0"
      using "2.prems"(1,3) by (rule discard_blocks_start)
    then have "leading_discards (es @ ys) = 5"
      using five by (simp add: leading_discards_append)
    moreover have "discard_blocks anchor (drop 5 es @ ys)"
      using True "2.prems"(1) rest "2.prems"(3) by (rule "2.IH"(1))
    ultimately show ?thesis
      using True len by simp
  next
    case False
    then have "discard_blocks anchor (es @ ys)"
      using "2.prems" by (intro "2.IH"(2)) simp_all
    with False "2.prems"(2) show ?thesis
      by simp
  qed
qed

lemma leading_discards_discarded [simp]: "leading_discards (discarded env r n) = n"
proof -
  have "\<forall>e\<in>set (discarded env r n). is_discard e"
    by (simp add: discarded_def is_discard_def)
  then have "takeWhile is_discard (discarded env r n) = discarded env r n"
    by (simp only: takeWhile_eq_all_conv)
  then show ?thesis
    by (simp only: leading_discards_def length_discarded)
qed

lemma captured_not_discard: "is_captured e \<Longrightarrow> \<not> is_discard e"
  by (auto simp: is_captured_def is_discard_def split: event.splits)

lemma captured_or_skipped_not_discard: "is_captured_or_skipped e \<Longrightarrow> \<not> is_discard e"
  by (auto simp: is_captured_or_skipped_def is_captured_def is_discard_def split: event.splits)

lemma step_blocks:
  "\<exists>new. trace (step env cfg s) = trace s @ new \<and> discard_blocks is_captured_or_skipped new
     \<and> (manual cfg \<and> control s \<noteq> Countdown \<longrightarrow> discard_blocks is_captured new)"
  unfolding step_def
  by (auto simp: op_defs Let_def event_defs split: control.splits option.splits)

lemma main_blocks:
  "\<exists>new. trace (main env cfg n) = trace (main_init env cfg) @ new
     \<and> discard_blocks is_captured_or_skipped new
     \<and> (manual cfg \<longrightarrow> discard_blocks is_captured new)"
proof (induction n)
  case 0
  show ?case
    by (simp add: main_0)
next
  case (Suc n)
  then obtain xs where xs: "trace (main env cfg n) = trace (main_init env cfg) @ xs"
    "discard_blocks is_captured_or_skipped xs" "manual cfg \<longrightarrow> discard_blocks is_captured xs"
    by blast
  have "manual cfg \<longrightarrow> control (main env cfg n) \<noteq> Countdown"
    using manual_inv_main [of cfg env n] by (auto simp: manual_inv_def)
  then obtain ys where ys: "trace (step env cfg (main env cfg n)) = trace (main env cfg n) @ ys"
    "discard_blocks is_captured_or_skipped ys" "manual cfg \<longrightarrow> discard_blocks is_captured ys"
    using step_blocks [of env cfg "main env cfg n"] by blast
  have "discard_blocks is_captured_or_skipped (xs @ ys)"
    using captured_or_skipped_not_discard xs(2) ys(2) by (rule discard_blocks_append)
  moreover have "manual cfg \<longrightarrow> discard_blocks is_captured (xs @ ys)"
    using captured_not_discard xs(3) ys(3) by (auto intro: discard_blocks_append)
  ultimately show ?case
    using xs(1) ys(1) by (simp add: main_Suc)
qed

text \<open>
  Claim C3, as the script has it. In the events of the main loop the discarded reads
  come in blocks of exactly five: one block right after the log line of every capture
  (a write call, after which the index advances), in both modes, and in automatic mode
  also one right after the warning about a final read that failed, since the loop of
  lines 118 and 119 stands after the \<^verbatim>\<open>if\<close> and not inside its \<^verbatim>\<open>else\<close>. No other read is
  discarded; in manual mode the blocks after captures are the only ones.
\<close>

theorem discards_follow_captures:
  "discard_blocks is_captured_or_skipped (loop_trace env cfg n)
   \<and> (manual cfg \<longrightarrow> discard_blocks is_captured (loop_trace env cfg n))"
  using main_blocks [of env cfg n] by (auto simp: loop_trace_def)

text \<open>A manual run with one capture, and an automatic run whose final read fails.\<close>

theorem discards_follow_captures_witness:
  "manual two_by_hand
   \<and> discard_blocks is_captured (loop_trace space_then_escape two_by_hand 2)
   \<and> discard_blocks is_captured_or_skipped (loop_trace frame_dropped one_shot 2)"
  using discards_follow_captures [of space_then_escape two_by_hand 2]
    discards_follow_captures [of frame_dropped one_shot 2]
  by (simp add: two_by_hand_def)

text \<open>
  Claim C3 as stated fails in automatic mode: after a final read that failed, with no
  file written and the index where it was, five reads are discarded all the same.
\<close>

theorem discards_after_failed_read_counterexample:
  "loop_trace frame_dropped one_shot 2 =
     [ReadFrame (Some (Frame 0 [])), Imshow (Frame 0 [''Capturing...'', ''1/1'']), ReadFrame None,
      Print WarningFinal, DiscardFrame (Some (Frame 2 [])), DiscardFrame (Some (Frame 3 [])),
      DiscardFrame (Some (Frame 4 [])), DiscardFrame (Some (Frame 5 [])), DiscardFrame (Some (Frame 6 []))]
   \<and> write_calls (trace (main frame_dropped one_shot 2)) = []
   \<and> \<not> discard_blocks is_captured (loop_trace frame_dropped one_shot 2)"
  by (simp add: run_defs loop_trace_def frame_dropped_def one_shot_def eval_nat_numeral text_defs)

subsection \<open>An automatic run to its end\<close>

lemma countdown_tick:
  assumes "control s = Countdown" "frame s \<noteq> None" "camera_frames env (reads s) \<noteq> None"
    "key_codes env (polls s) AND 0xFF \<noteq> 113"
  shows "if remaining env cfg s \<le> 0
         then control (step env cfg s) = OuterLoop \<and> img_index (step env cfg s) = img_index s + 1
         else control (step env cfg s) = Countdown \<and> frame (step env cfg s) \<noteq> None
           \<and> img_index (step env cfg s) = img_index s \<and> start_time (step env cfg s) = start_time s
           \<and> ticks (step env cfg s) = Suc (ticks s)"
  using assms by (auto simp: step_def op_defs Let_def remaining_def)

lemma countdown_ends:
  assumes "\<forall>k. camera_frames env k \<noteq> None" "\<forall>k. key_codes env k AND 0xFF \<noteq> 113"
  shows "control s = Countdown \<Longrightarrow> frame s \<noteq> None \<Longrightarrow> ticks s \<le> j
    \<Longrightarrow> delay cfg \<le> py_int (wall_clock env j - start_time s)
    \<Longrightarrow> \<exists>m. control (steps m env cfg s) = OuterLoop \<and> img_index (steps m env cfg s) = img_index s + 1"
proof (induction "j - ticks s" arbitrary: s)
  case 0
  then have "remaining env cfg s \<le> 0"
    by (simp add: remaining_def)
  then have "control (steps 1 env cfg s) = OuterLoop \<and> img_index (steps 1 env cfg s) = img_index s + 1"
    using countdown_tick [of s env cfg] 0 assms by simp
  then show ?case
    by blast
next
  case (Suc d)
  show ?case
  proof (cases "remaining env cfg s \<le> 0")
    case True
    then have "control (steps 1 env cfg s) = OuterLoop \<and> img_index (steps 1 env cfg s) = img_index s + 1"
      using countdown_tick [of s env cfg] Suc.prems assms by simp
    then show ?thesis
      by blast
  next
    case False
    let ?t = "step env cfg s"
    have t: "control ?t = Countdown" "frame ?t \<noteq> None" "img_index ?t = img_index s"
      "start_time ?t = start_time s" "ticks ?t = Suc (ticks s)"
      using countdown_tick [of s env cfg] False Suc.prems assms by simp_all
    have "d = j - ticks ?t" "ticks ?t \<le> j"
      using Suc.hyps(2) t(5) by simp_all
    then obtain m where "control (steps m env cfg ?t) = OuterLoop"
        "img_index (steps m env cfg ?t) = img_index ?t + 1"
      using Suc.hyps(1) [of ?t] t Suc.prems(4) by auto
    then have "control (steps (m + 1) env cfg s) = OuterLoop
        \<and> img_index (steps (m + 1) env cfg s) = img_index s + 1"
      using t(3) by (simp only: steps_add) simp
    then show ?thesis
      by blast
  qed
qed

lemma outer_progress:
  assumes "\<not> manual cfg" "\<forall>k. camera_frames env k \<noteq> None" "\<forall>k. key_codes env k AND 0xFF \<noteq> 113"
    "\<forall>k. \<exists>j>k. delay cfg \<le> py_int (wall_clock env j - wall_clock env k)"
    "control s = OuterLoop" "img_index s \<le> count cfg"
  shows "\<exists>m. control (steps m env cfg s) = OuterLoop \<and> img_index (steps m env cfg s) = img_index s + 1"
proof -
  let ?t = "step env cfg s"
  have "camera_frames env (reads s) \<noteq> None"
    using assms(2) by blast
  then obtain img where img: "camera_frames env (reads s) = Some img"
    by auto
  have t: "img_index ?t = img_index s" "control ?t = Countdown" "frame ?t = Some img"
    "start_time ?t = wall_clock env (ticks s)" "ticks ?t = Suc (ticks s)"
    using outer_read_step [OF assms(1,5,6), of env] img by simp_all
  obtain j where j: "ticks s < j" "delay cfg \<le> py_int (wall_clock env j - wall_clock env (ticks s))"
    using assms(4) by blast
  then obtain m where "control (steps m env cfg ?t) = OuterLoop"
      "img_index (steps m env cfg ?t) = img_index ?t + 1"
    using countdown_ends [OF assms(2,3), of ?t j cfg] t by auto
  then have "control (steps (m + 1) env cfg s) = OuterLoop
      \<and> img_index (steps (m + 1) env cfg s) = img_index s + 1"
    using t(1) by (simp only: steps_add) simp
  then show ?thesis
    by blast
qed

lemma run_ends:
  assumes "\<not> manual cfg" "\<forall>k. camera_frames env k \<noteq> None" "\<forall>k. key_codes env k AND 0xFF \<noteq> 113"
    "\<forall>k. \<exists>j>k. delay cfg \<le> py_int (wall_clock env j - wall_clock env k)"
  shows "control s = OuterLoop
    \<Longrightarrow> \<exists>m. control (steps m env cfg s) = Exited 0 \<and> count cfg < img_index (steps m env cfg s)"
proof (induction "nat (count cfg + 1 - img_index s)" arbitrary: s)
  case 0
  then have "control (steps 1 env cfg s) = Exited 0 \<and> count cfg < img_index (steps 1 env cfg s)"
    by (simp add: step_def outer_iteration_def finish_def emit_def Let_def)
  then show ?case
    by blast
next
  case (Suc d)
  then have "img_index s \<le> count cfg"
    by simp
  then obtain m where m: "control (steps m env cfg s) = OuterLoop"
      "img_index (steps m env cfg s) = img_index s + 1"
    using outer_progress [OF assms Suc.prems] by blast
  then have "d = nat (count cfg + 1 - img_index (steps m env cfg s))"
    using Suc.hyps(2) by simp
  then obtain k where "control (steps k env cfg (steps m env cfg s)) = Exited 0"
      "count cfg < img_index (steps k env cfg (steps m env cfg s))"
    using Suc.hyps(1) m(1) by blast
  then have "control (steps (k + m) env cfg s) = Exited 0 \<and> count cfg < img_index (steps (k + m) env cfg s)"
    by (simp only: steps_add)
  then show ?case
    by blast
qed

lemma names_in_order:
  "map (nth_filename env cfg) [0..<N]
    = map (\<lambda>i. output_dir cfg @ ''/'' @ prefix cfg @ ''_'' @ zfill 3 (digits i) @ ''_''
               @ strftime (local_time env (i - 1)) @ ''.jpg'') [1..<Suc N]"
proof -
  have "[1..<Suc N] = map Suc [0..<N]"
    by (simp add: map_Suc_upt del: upt_Suc)
  moreover have "nth_filename env cfg k = output_dir cfg @ ''/'' @ prefix cfg @ ''_'' @ zfill 3 (digits (Suc k)) @ ''_''
               @ strftime (local_time env (Suc k - 1)) @ ''.jpg''" for k
    using format_03d_nat [of "Suc k"]
    by (simp add: nth_filename_def build_filename_def path_join_def add.commute)
  ultimately show ?thesis
    by (simp add: comp_def del: upt_Suc)
qed

text \<open>
  Claim C1. In automatic mode with a count \<open>N\<close> of at least 1, when the start succeeds,
  every read delivers a frame, every write succeeds, q is never pressed, and the clock
  goes on (after any reading there is a later one at which the delay has passed), the
  run ends with exit code 0 and has then written exactly \<open>N\<close> files, for the indices
  \<open>1\<close> to \<open>N\<close> in this order, the file for index \<open>i\<close> under the name
  \<^verbatim>\<open><output_dir>/<prefix>_<i padded with zeros to three digits>_<YYYYMMDD_HHMMSS>.jpg\<close>
  with the local time read for that capture.
\<close>

theorem automatic_run_writes_all:
  assumes "\<not> manual cfg" "1 \<le> count cfg" "mkdir (output_path env) = None" "camera_opens env"
    "\<forall>k. camera_frames env k \<noteq> None" "\<forall>k. write_ok env k" "\<forall>k. key_codes env k AND 0xFF \<noteq> 113"
    "\<forall>k. \<exists>j>k. delay cfg \<le> py_int (wall_clock env j - wall_clock env k)"
  shows "\<exists>n. exit_code (main env cfg n) = Some 0
    \<and> files_written (trace (main env cfg n))
        = map (\<lambda>i. output_dir cfg @ ''/'' @ prefix cfg @ ''_'' @ zfill 3 (digits i) @ ''_''
                   @ strftime (local_time env (i - 1)) @ ''.jpg'') [1..<Suc (nat (count cfg))]"
proof -
  have "control (main_init env cfg) = OuterLoop"
    using assms(3,4) by (simp add: main_init_def ensure_dir_def blank_def emit_def Let_def)
  then obtain n where n: "control (main env cfg n) = Exited 0" "count cfg < img_index (main env cfg n)"
    using run_ends [OF assms(1,5,7,8)] unfolding main_def by blast
  have "int (writes (main env cfg n)) = count cfg"
    using index_inv_main [of env cfg n] n(2) assms(2) by (auto simp: index_inv_def)
  then have w: "writes (main env cfg n) = nat (count cfg)"
    by simp
  have "filter (write_ok env) [0..<nat (count cfg)] = [0..<nat (count cfg)]"
    using assms(6) by simp
  then have "files_written (trace (main env cfg n)) = map (nth_filename env cfg) [0..<nat (count cfg)]"
    using files_written_main [of env cfg n] w by simp
  then have "files_written (trace (main env cfg n))
      = map (\<lambda>i. output_dir cfg @ ''/'' @ prefix cfg @ ''_'' @ zfill 3 (digits i) @ ''_''
                 @ strftime (local_time env (i - 1)) @ ''.jpg'') [1..<Suc (nat (count cfg))]"
    by (simp only: names_in_order)
  moreover have "exit_code (main env cfg n) = Some 0"
    using n(1) by (simp add: exit_code_def)
  ultimately show ?thesis
    by blast
qed

text \<open>The defaults, five images three seconds apart, in the studio.\<close>

theorem automatic_run_writes_all_witness:
  "\<not> manual defaults \<and> 1 \<le> count defaults \<and> mkdir (output_path studio) = None \<and> camera_opens studio
   \<and> (\<exists>n. exit_code (main studio defaults n) = Some 0
        \<and> files_written (trace (main studio defaults n))
            = [''captured_images/image_001_20240517_120000.jpg'',
               ''captured_images/image_002_20240517_120001.jpg'',
               ''captured_images/image_003_20240517_120002.jpg'',
               ''captured_images/image_004_20240517_120003.jpg'',
               ''captured_images/image_005_20240517_120004.jpg''])"
proof -
  have a: "\<not> manual defaults" "1 \<le> count defaults" "mkdir (output_path studio) = None" "camera_opens studio"
    "\<forall>k. camera_frames studio k \<noteq> None" "\<forall>k. write_ok studio k" "\<forall>k. key_codes studio k AND 0xFF \<noteq> 113"
    by (simp_all add: defaults_def studio_def)
  have "delay defaults \<le> py_int (wall_clock studio (k + 3) - wall_clock studio k)" for k
    by (simp add: defaults_def studio_def py_int_def)
  then have b: "\<forall>k. \<exists>j>k. delay defaults \<le> py_int (wall_clock studio j - wall_clock studio k)"
    by (metis less_add_same_cancel1 zero_less_numeral)
  have c: "[1..<Suc (nat (count defaults))] = [1, 2, 3, 4, 5]"
    by (simp add: defaults_def upt_conv_Cons)
  have d: "output_dir defaults = ''captured_images''" "prefix defaults = ''image''"
    "local_time studio = (\<lambda>k. noon\<lparr>second := k\<rparr>)"
    by (simp_all add: defaults_def studio_def)
  show ?thesis
    using a(1-4) automatic_run_writes_all [OF a b]
    by (simp only: c d) (simp add: name_defs)
qed

text \<open>
  The index takes three characters up to 999 and as many as it has digits from there on;
  the time stamp of a four-digit year takes fifteen.
\<close>

lemma index_field_examples:
  "format_03d 7 = ''007'' \<and> format_03d 42 = ''042'' \<and> format_03d 999 = ''999'' \<and> format_03d 1000 = ''1000''"
  by (simp add: name_defs)

lemma length_digits_1: "n < 10 \<Longrightarrow> length (digits n) = 1"
  by (subst digits.simps) simp

lemma length_digits_Suc: "10 \<le> n \<Longrightarrow> length (digits n) = Suc (length (digits (n div 10)))"
  by (subst digits.simps) simp

lemma length_digits_2: "n < 100 \<Longrightarrow> length (digits n) \<le> 2"
  by (cases "n < 10") (simp_all add: length_digits_1 length_digits_Suc)

lemma length_zfill_2: "n < 100 \<Longrightarrow> length (zfill 2 (digits n)) = 2"
  using length_digits_2 [of n] by (simp add: zfill_def)

lemma length_digits_4:
  assumes "1000 \<le> n" "n < 10000"
  shows "length (digits n) = 4"
proof -
  have "10 \<le> n" "10 \<le> n div 10" "10 \<le> n div 10 div 10" "n div 10 div 10 div 10 < 10"
    using assms by simp_all
  then show ?thesis
    by (simp add: length_digits_1 length_digits_Suc)
qed

lemma strftime_length:
  assumes "1000 \<le> year d" "year d < 10000" "month d < 100" "day d < 100" "hour d < 100"
    "minute d < 100" "second d < 100"
  shows "length (strftime d) = 15 \<and> strftime d ! 8 = CHR ''_''"
proof -
  have y: "length (zfill 4 (digits (year d))) = 4"
    using length_digits_4 [OF assms(1,2)] by (simp add: zfill_def)
  have m: "length (zfill 2 (digits (month d))) = 2" "length (zfill 2 (digits (day d))) = 2"
    "length (zfill 2 (digits (hour d))) = 2" "length (zfill 2 (digits (minute d))) = 2"
    "length (zfill 2 (digits (second d))) = 2"
    using assms(3-7) by (simp_all add: length_zfill_2)
  have "strftime d ! 8 = ((zfill 4 (digits (year d)) @ zfill 2 (digits (month d)) @ zfill 2 (digits (day d)))
      @ CHR ''_'' # zfill 2 (digits (hour d)) @ zfill 2 (digits (minute d)) @ zfill 2 (digits (second d))) ! 8"
    by (simp add: strftime_def)
  also have "\<dots> = CHR ''_''"
    using y m by (subst nth_append) simp
  finally show ?thesis
    using y m by (simp add: strftime_def)
qed

end
